theory Spec2Isabelle
  imports Complex_Main
begin

section \<open>Arrays and numba stencils\<close>

text \<open>
  A one-dimensional numpy array is a list, a two-dimensional one a list of rows of equal
  length. The element type is a parameter: the stencil code only adds, subtracts and
  multiplies elements and writes the constants \<open>0\<close> and \<open>2.0\<close>, so everything
  proved about it below holds for every arithmetic on the elements. The concrete
  scenarios instantiate it with \<open>real\<close> (float64 without rounding) and with
  \<open>float64\<close> (reals with the IEEE special values, still without rounding).
\<close>

type_synonym 'a array1 = "'a list"
type_synonym 'a array2 = "'a list list"

definition ncols :: "'a array2 \<Rightarrow> nat" where
  "ncols x = (case x of [] \<Rightarrow> 0 | r # _ \<Rightarrow> length r)"

definition shape :: "'a array2 \<Rightarrow> nat \<times> nat" where
  "shape x = (length x, ncols x)"

text \<open>
  \<open>@numba.stencil\<close> with its default mode (\<open>constant\<close>, \<open>cval = 0\<close>): the kernel
  reads the input at offsets relative to the current cell; the result has the shape of
  the input, the kernel's value at every cell whose whole neighbourhood lies inside the
  array, and \<open>cval = 0\<close> at every other cell. The neighbourhood is the range of offsets
  the kernel uses in each dimension.
\<close>

definition stencil1D :: "int \<times> int \<Rightarrow> ((int \<Rightarrow> 'a) \<Rightarrow> 'a) \<Rightarrow> 'a::zero array1 \<Rightarrow> 'a array1" where
  "stencil1D nb kern x =
     map (\<lambda>i. if 0 \<le> int i + fst nb \<and> int i + snd nb < int (length x)
              then kern (\<lambda>d. x ! nat (int i + d))
              else 0)
         [0..<length x]"

definition stencil2D ::
  "(int \<times> int) \<times> (int \<times> int) \<Rightarrow> ((int \<Rightarrow> int \<Rightarrow> 'a) \<Rightarrow> 'a) \<Rightarrow> 'a::zero array2 \<Rightarrow> 'a array2" where
  "stencil2D nb kern x =
     map (\<lambda>i. map (\<lambda>j.
            if 0 \<le> int i + fst (fst nb) \<and> int i + snd (fst nb) < int (length x) \<and>
               0 \<le> int j + fst (snd nb) \<and> int j + snd (snd nb) < int (ncols x)
            then kern (\<lambda>di dj. x ! nat (int i + di) ! nat (int j + dj))
            else 0)
          [0..<ncols x])
         [0..<length x]"

subsection \<open>The 1D and 2D heat kernels\<close>

text \<open>
  \<^verbatim>\<open>
  @numba.stencil
  def central_diff_stencil(x, F):
      return x[0]  + F * (x[1] - 2.0 * x[0] + x[-1])
  \<close>
\<close>

definition central_diff_stencil_kernel :: "(int \<Rightarrow> 'a) \<Rightarrow> 'a \<Rightarrow> 'a::{minus,times,numeral}" where
  "central_diff_stencil_kernel x F = x 0 + F * (x 1 - 2 * x 0 + x (- 1))"

definition central_diff_stencil :: "'a::{zero,minus,times,numeral} array1 \<Rightarrow> 'a \<Rightarrow> 'a array1" where
  "central_diff_stencil x F = stencil1D (- 1, 1) (\<lambda>a. central_diff_stencil_kernel a F) x"

text \<open>
  \<^verbatim>\<open>
  @numba.stencil
  def central_diff_stencil2D(x, Fx, Fy):
      return (x[0, 0]  + Fx * (x[-1, 0] - 2.0 * x[0, 0] + x[1, 0]) +
              + Fy * (x[0, -1] - 2.0 * x[0, 0] + x[0, 1]))
  \<close>
\<close>

definition central_diff_stencil2D_kernel ::
  "(int \<Rightarrow> int \<Rightarrow> 'a) \<Rightarrow> 'a \<Rightarrow> 'a \<Rightarrow> 'a::{minus,times,numeral}" where
  "central_diff_stencil2D_kernel x Fx Fy =
     x 0 0 + Fx * (x (- 1) 0 - 2 * x 0 0 + x 1 0)
           + Fy * (x 0 (- 1) - 2 * x 0 0 + x 0 1)"

definition central_diff_stencil2D ::
  "'a::{zero,minus,times,numeral} array2 \<Rightarrow> 'a \<Rightarrow> 'a \<Rightarrow> 'a array2" where
  "central_diff_stencil2D x Fx Fy =
     stencil2D ((- 1, 1), (- 1, 1)) (\<lambda>a. central_diff_stencil2D_kernel a Fx Fy) x"

subsection \<open>The time loops\<close>

text \<open>
  \<^verbatim>\<open>
  @numba.njit
  def simulation2D(x, Fx, Fy, nt):
      for i in range(nt):
          x = central_diff_stencil2D(x, Fx, Fy)
      return x
  \<close>
  \<open>range(nt)\<close> has \<open>nat nt\<close> elements: none when \<open>nt \<le> 0\<close>.
\<close>

primrec simulation_loop :: "nat \<Rightarrow> 'a::{zero,minus,times,numeral} array1 \<Rightarrow> 'a \<Rightarrow> 'a array1" where
  "simulation_loop 0 x F = x"
| "simulation_loop (Suc n) x F = simulation_loop n (central_diff_stencil x F) F"

definition simulation :: "'a::{zero,minus,times,numeral} array1 \<Rightarrow> 'a \<Rightarrow> int \<Rightarrow> 'a array1" where
  "simulation x F nt = simulation_loop (nat nt) x F"

primrec simulation2D_loop ::
  "nat \<Rightarrow> 'a::{zero,minus,times,numeral} array2 \<Rightarrow> 'a \<Rightarrow> 'a \<Rightarrow> 'a array2" where
  "simulation2D_loop 0 x Fx Fy = x"
| "simulation2D_loop (Suc n) x Fx Fy = simulation2D_loop n (central_diff_stencil2D x Fx Fy) Fx Fy"

definition simulation2D ::
  "'a::{zero,minus,times,numeral} array2 \<Rightarrow> 'a \<Rightarrow> 'a \<Rightarrow> int \<Rightarrow> 'a array2" where
  "simulation2D x Fx Fy nt = simulation2D_loop (nat nt) x Fx Fy"

subsection \<open>The same loops on a store of arrays\<close>

text \<open>
  numpy arrays are objects: a variable holds a reference, and a caller sees what a callee
  writes through it. The store is the list of all arrays allocated so far, a reference is
  an index into it. A stencil call allocates its result (numba creates the output array
  of a stencil itself) and returns the new reference; the loop rebinds its local
  variable \<open>x\<close> to it. Nothing else touches the store, so it grows by exactly one
  array for every stencil call.
\<close>

type_synonym ref = nat
type_synonym 'v store = "'v list"

definition alloc :: "'v \<Rightarrow> 'v store \<Rightarrow> ref \<times> 'v store" where
  "alloc v h = (length h, h @ [v])"

definition central_diff_stencil_st ::
  "ref \<Rightarrow> 'a::{zero,minus,times,numeral} \<Rightarrow> 'a array1 store \<Rightarrow> ref \<times> 'a array1 store" where
  "central_diff_stencil_st r F h = alloc (central_diff_stencil (h ! r) F) h"

definition central_diff_stencil2D_st ::
  "ref \<Rightarrow> 'a::{zero,minus,times,numeral} \<Rightarrow> 'a \<Rightarrow> 'a array2 store \<Rightarrow> ref \<times> 'a array2 store" where
  "central_diff_stencil2D_st r Fx Fy h = alloc (central_diff_stencil2D (h ! r) Fx Fy) h"

primrec simulation_st_loop ::
  "nat \<Rightarrow> ref \<Rightarrow> 'a::{zero,minus,times,numeral} \<Rightarrow> 'a array1 store \<Rightarrow> ref \<times> 'a array1 store" where
  "simulation_st_loop 0 r F h = (r, h)"
| "simulation_st_loop (Suc n) r F h =
     (case central_diff_stencil_st r F h of (r', h') \<Rightarrow> simulation_st_loop n r' F h')"

definition simulation_st ::
  "ref \<Rightarrow> 'a::{zero,minus,times,numeral} \<Rightarrow> int \<Rightarrow> 'a array1 store \<Rightarrow> ref \<times> 'a array1 store" where
  "simulation_st r F nt h = simulation_st_loop (nat nt) r F h"

primrec simulation2D_st_loop ::
  "nat \<Rightarrow> ref \<Rightarrow> 'a::{zero,minus,times,numeral} \<Rightarrow> 'a \<Rightarrow> 'a array2 store \<Rightarrow> ref \<times> 'a array2 store" where
  "simulation2D_st_loop 0 r Fx Fy h = (r, h)"
| "simulation2D_st_loop (Suc n) r Fx Fy h =
     (case central_diff_stencil2D_st r Fx Fy h of (r', h') \<Rightarrow> simulation2D_st_loop n r' Fx Fy h')"

definition simulation2D_st ::
  "ref \<Rightarrow> 'a::{zero,minus,times,numeral} \<Rightarrow> 'a \<Rightarrow> int \<Rightarrow> 'a array2 store \<Rightarrow> ref \<times> 'a array2 store" where
  "simulation2D_st r Fx Fy nt h = simulation2D_st_loop (nat nt) r Fx Fy h"

section \<open>The notebook's setup cells\<close>

text \<open>
  The setup cells are scripts over global variables; the model makes the globals they
  read a record and returns what they bind. \<open>nx\<close>, \<open>ny\<close>, \<open>nt\<close> are Python ints,
  the other values floats. The 2D cell reads \<open>L\<close>, which only the 1D cell binds
  (\<open>dx = L / nx\<close>, \<open>X == L\<close>), next to its own \<open>Lx\<close> and \<open>Ly\<close>.
  A Python division by zero raises \<open>ZeroDivisionError\<close>, a negative number of samples
  or a negative dimension raises \<open>ValueError\<close>.
\<close>

datatype error = ZeroDivisionError | ValueError | IndexError

record config =
  c_nx :: int
  c_ny :: int
  c_nt :: int
  c_T :: real
  c_L :: real
  c_Lx :: real
  c_Ly :: real
  c_alpha :: real

definition dx :: "config \<Rightarrow> real" where
  "dx c = c_L c / of_int (c_nx c)"

definition dy :: "config \<Rightarrow> real" where
  "dy c = c_L c / of_int (c_ny c)"

definition dt :: "config \<Rightarrow> real" where
  "dt c = c_T c / of_int (c_nt c)"

text \<open>
  \<open>np.linspace(start, stop, num)\<close>: \<open>num\<close> evenly spaced samples with both end points;
  \<open>arange(0, num) * step + start\<close> with \<open>step = (stop - start) / (num - 1)\<close>.
\<close>

definition linspace :: "real \<Rightarrow> real \<Rightarrow> nat \<Rightarrow> real list" where
  "linspace start stop num =
     (if num = 1 then [start]
      else map (\<lambda>k. real k * ((stop - start) / real (num - 1)) + start) [0..<num])"

text \<open>\<open>np.meshgrid(xs, ys)\<close> (indexing \<open>xy\<close>) and \<open>np.meshgrid(xs, ys, indexing='ij')\<close>.\<close>

definition meshgrid :: "'a list \<Rightarrow> 'a list \<Rightarrow> 'a array2 \<times> 'a array2" where
  "meshgrid xs ys = (replicate (length ys) xs, map (\<lambda>y. replicate (length xs) y) ys)"

definition meshgrid_ij :: "'a list \<Rightarrow> 'a list \<Rightarrow> 'a array2 \<times> 'a array2" where
  "meshgrid_ij xs ys = (map (\<lambda>x. replicate (length ys) x) xs, replicate (length xs) ys)"

text \<open>
  \<^verbatim>\<open>
  dx = L / nx
  dt = T / nt
  alpha = 1.0
  F = alpha * dt / dx ** 2
  print(F)
  x = np.linspace(0, L, nx + 1)
  temp = np.zeros(nx + 1)
  temp[nx//2:nx//2+nx//10] = np.sin(2.0 * np.pi * (x[nx//2:nx//2+nx//10] - x[nx//2])/(L/5))
  \<close>
\<close>

record setup1D_result =
  s_F :: real
  s_x :: "real list"
  s_temp1 :: "real list"

definition setup1D :: "config \<Rightarrow> error + setup1D_result" where
  "setup1D c =
     (if c_nx c = 0 then Inl ZeroDivisionError
      else if c_nt c = 0 then Inl ZeroDivisionError
      else if (dx c)\<^sup>2 = 0 then Inl ZeroDivisionError
      else if c_nx c + 1 < 0 then Inl ValueError
      else if c_nx c + 1 = 0 then Inl IndexError
      else
        let x = linspace 0 (c_L c) (nat (c_nx c + 1));
            a = nat (c_nx c div 2);
            b = nat (c_nx c div 2 + c_nx c div 10)
        in Inr \<lparr> s_F = c_alpha c * dt c / (dx c)\<^sup>2,
                 s_x = x,
                 s_temp1 = map (\<lambda>k. if a \<le> k \<and> k < b
                                      then sin (2 * pi * (x ! k - x ! a) / (c_L c / 5))
                                      else 0)
                               [0..<nat (c_nx c + 1)] \<rparr>)"

text \<open>
  \<^verbatim>\<open>
  dx = L / nx
  dy = L / ny
  dt = T / nt
  alpha = 1.0
  Fx = alpha * dt / dx ** 2
  Fy = alpha * dt / dy ** 2
  X, Y = np.meshgrid(np.linspace(0, Lx, nx + 1), np.linspace(0, Ly, ny + 1), indexing='ij')
  temp = np.zeros((ny + 1, nx + 1))
  temp = 1.0 * np.exp(-(X - Lx / 2.0) **2 / 2  - (Y - Ly / 2.0) ** 2 / 2) # Initial conditions
  temp[(X == 0.0) | (Y == 0.0) | (X == L) | (Y == Ly)] = 0.0 # Boundary conditions
  \<close>
  There is no test of \<open>Fx\<close> or \<open>Fy\<close> against a bound anywhere in the cell.
\<close>

record setup2D_result =
  s_Fx :: real
  s_Fy :: real
  s_temp :: "real array2"

definition initial_temp :: "config \<Rightarrow> real array2" where
  "initial_temp c =
     (let (X, Y) = meshgrid_ij (linspace 0 (c_Lx c) (nat (c_nx c + 1)))
                               (linspace 0 (c_Ly c) (nat (c_ny c + 1)))
      in map (\<lambda>(Xr, Yr). map (\<lambda>(X, Y).
                if X = 0 \<or> Y = 0 \<or> X = c_L c \<or> Y = c_Ly c then 0
                else 1 * exp (- (X - c_Lx c / 2)\<^sup>2 / 2 - (Y - c_Ly c / 2)\<^sup>2 / 2))
              (zip Xr Yr))
           (zip X Y))"

definition setup2D :: "config \<Rightarrow> error + setup2D_result" where
  "setup2D c =
     (if c_nx c = 0 then Inl ZeroDivisionError
      else if c_ny c = 0 then Inl ZeroDivisionError
      else if c_nt c = 0 then Inl ZeroDivisionError
      else if (dx c)\<^sup>2 = 0 then Inl ZeroDivisionError
      else if (dy c)\<^sup>2 = 0 then Inl ZeroDivisionError
      else if c_nx c + 1 < 0 \<or> c_ny c + 1 < 0 then Inl ValueError
      else Inr \<lparr> s_Fx = c_alpha c * dt c / (dx c)\<^sup>2,
                 s_Fy = c_alpha c * dt c / (dy c)\<^sup>2,
                 s_temp = initial_temp c \<rparr>)"

text \<open>The values the notebook's cells bind before the 2D run.\<close>

definition notebook_config :: config where
  "notebook_config = \<lparr> c_nx = 400, c_ny = 400, c_nt = 10000, c_T = 100, c_L = 100,
                          c_Lx = 10, c_Ly = 10, c_alpha = 1 \<rparr>"




section \<open>Non-finite values\<close>

text \<open>
  float64 with its special values: a finite value (a real: rounding and overflow are not
  modelled), the two infinities, and NaN. The operations follow IEEE 754 on the special
  values: NaN is absorbing, \<open>inf - inf\<close> and \<open>0 * inf\<close> are NaN.
\<close>

datatype float64 = Fin real | PInf | NInf | NaN

fun isfinite :: "float64 \<Rightarrow> bool" where
  "isfinite (Fin _) = True"
| "isfinite _ = False"

instantiation float64 :: "{zero, one, plus, uminus, minus, times}"
begin

definition zero_float64 :: float64 where
  "zero_float64 = Fin 0"

definition one_float64 :: float64 where
  "one_float64 = Fin 1"

fun plus_float64 :: "float64 \<Rightarrow> float64 \<Rightarrow> float64" where
  "plus_float64 NaN _ = NaN"
| "plus_float64 _ NaN = NaN"
| "plus_float64 PInf NInf = NaN"
| "plus_float64 NInf PInf = NaN"
| "plus_float64 PInf _ = PInf"
| "plus_float64 _ PInf = PInf"
| "plus_float64 NInf _ = NInf"
| "plus_float64 _ NInf = NInf"
| "plus_float64 (Fin a) (Fin b) = Fin (a + b)"

fun uminus_float64 :: "float64 \<Rightarrow> float64" where
  "uminus_float64 (Fin a) = Fin (- a)"
| "uminus_float64 PInf = NInf"
| "uminus_float64 NInf = PInf"
| "uminus_float64 NaN = NaN"

definition minus_float64 :: "float64 \<Rightarrow> float64 \<Rightarrow> float64" where
  "minus_float64 a b = a + (- b)"

fun times_float64 :: "float64 \<Rightarrow> float64 \<Rightarrow> float64" where
  "times_float64 NaN _ = NaN"
| "times_float64 _ NaN = NaN"
| "times_float64 (Fin a) (Fin b) = Fin (a * b)"
| "times_float64 (Fin a) PInf = (if a = 0 then NaN else if 0 < a then PInf else NInf)"
| "times_float64 (Fin a) NInf = (if a = 0 then NaN else if 0 < a then NInf else PInf)"
| "times_float64 PInf (Fin b) = (if b = 0 then NaN else if 0 < b then PInf else NInf)"
| "times_float64 NInf (Fin b) = (if b = 0 then NaN else if 0 < b then NInf else PInf)"
| "times_float64 PInf PInf = PInf"
| "times_float64 PInf NInf = NInf"
| "times_float64 NInf PInf = NInf"
| "times_float64 NInf NInf = PInf"

instance ..

end

instance float64 :: semigroup_add
proof
  fix a b c :: float64
  show "a + b + c = a + (b + c)"
    by (cases a; cases b; cases c) simp_all
qed

instance float64 :: numeral ..

section \<open>The multi-GPU notebook\<close>

text \<open>
  The element-wise kernel: the escape-time loop of the point \<open>(cx, cy)\<close>.
  \<^verbatim>\<open>
  mandelbrot = 0;
  double cx = X, cy = Y;
  double x = cx, y = cy;
  double xtemp;
  int nit = 0;
  while (x * x + y * y < radius2 && nit < itermax) {
      xtemp = x * x - y * y + cx;
      y = 2.0 * x * y + cy;
      x = xtemp;
      nit += 1;
  }
  mandelbrot = nit;
  \<close>
\<close>

function mandelbrot_loop :: "real \<Rightarrow> real \<Rightarrow> real \<Rightarrow> real \<Rightarrow> int \<Rightarrow> int \<Rightarrow> real \<Rightarrow> int" where
  "mandelbrot_loop cx cy x y nit itermax radius2 =
     (if x * x + y * y < radius2 \<and> nit < itermax
      then mandelbrot_loop cx cy (x * x - y * y + cx) (2 * x * y + cy) (nit + 1) itermax radius2
      else nit)"
  by pat_completeness auto
termination
  by (relation "measure (\<lambda>(cx, cy, x, y, nit, itermax, radius2). nat (itermax - nit))") auto

definition mandelbrot_point :: "real \<Rightarrow> real \<Rightarrow> int \<Rightarrow> real \<Rightarrow> int" where
  "mandelbrot_point X Y itermax radius2 = mandelbrot_loop X Y X Y 0 itermax radius2"

definition mandelbrot_kernel :: "real array2 \<Rightarrow> real array2 \<Rightarrow> int \<Rightarrow> real \<Rightarrow> int array2" where
  "mandelbrot_kernel X Y itermax radius2 =
     map (\<lambda>(Xr, Yr). map (\<lambda>(x, y). mandelbrot_point x y itermax radius2) (zip Xr Yr)) (zip X Y)"

definition xmin :: real where "xmin = - 2"
definition xmax :: real where "xmax = 1"
definition ymin :: real where "ymin = - 1"
definition ymax :: real where "ymax = 1"

text \<open>
  The single-device cell, with the two sample counts (both 5000 in the notebook) as
  parameters:
  \<^verbatim>\<open>
  X, Y = cp.meshgrid(cp.linspace(xmin , xmax, 5000), cp.linspace(ymin, ymax, 5000))
  mandelbrot_array = mandelbrot_kernel(X, Y, 100, 4.0)
  \<close>
\<close>

definition mandelbrot_array :: "nat \<Rightarrow> nat \<Rightarrow> int array2" where
  "mandelbrot_array rows cols =
     (let (X, Y) = meshgrid (linspace xmin xmax cols) (linspace ymin ymax rows)
      in mandelbrot_kernel X Y 100 4)"

text \<open>
  \<open>cp.hstack\<close> and \<open>cp.vstack\<close> of two-dimensional arrays: no array to stack, or arrays
  that disagree in the other dimension, raise \<open>ValueError\<close>.
\<close>

definition hstack :: "'a array2 list \<Rightarrow> error + 'a array2" where
  "hstack as =
     (if as = [] then Inl ValueError
      else if list_ex (\<lambda>a. length a \<noteq> length (hd as)) as then Inl ValueError
      else Inr (map (\<lambda>r. concat (map (\<lambda>a. a ! r) as)) [0..<length (hd as)]))"

definition vstack :: "'a array2 list \<Rightarrow> error + 'a array2" where
  "vstack as =
     (if as = [] then Inl ValueError
      else if list_ex (\<lambda>a. ncols a \<noteq> ncols (hd as)) as then Inl ValueError
      else Inr (concat as))"

fun sequence :: "('e + 'a) list \<Rightarrow> 'e + 'a list" where
  "sequence [] = Inr []"
| "sequence (Inl e # _) = Inl e"
| "sequence (Inr a # rs) = (case sequence rs of Inl e \<Rightarrow> Inl e | Inr as \<Rightarrow> Inr (a # as))"

text \<open>
  Split by columns. The strip of device \<open>i\<close>:
  \<^verbatim>\<open>
  local_cols = cols // 4
  for i in range(total_gpus):
      with Device(i):
          xmin_local = xmin + (xmax - xmin) / total_gpus * i
          xmax_local = xmin_local + (xmax - xmin) / total_gpus
          X, Y = cp.meshgrid(cp.linspace(xmin_local , xmax_local, local_cols), cp.linspace(ymin, ymax, rows))
          # Add some values (i * 10) related to the column, to be able to show different color for each gpu
          mandelbrot_arrays[i] = mandelbrot_kernel(X, Y, 100, 4.0) + i * 10
  array = cp.hstack(mandelbrot_arrays).get()
  \<close>
  Which device computes a strip, and the copy to the host, leave the values alone.
\<close>

definition strip_cols :: "int \<Rightarrow> int \<Rightarrow> int \<Rightarrow> nat \<Rightarrow> int array2" where
  "strip_cols rows local_cols total_gpus i =
     (let xmin_local = xmin + (xmax - xmin) / of_int total_gpus * real i;
          xmax_local = xmin_local + (xmax - xmin) / of_int total_gpus;
          (X, Y) = meshgrid (linspace xmin_local xmax_local (nat local_cols))
                            (linspace ymin ymax (nat rows))
      in map (map (\<lambda>v. v + int i * 10)) (mandelbrot_kernel X Y 100 4))"

definition split_by_columns :: "int \<Rightarrow> int \<Rightarrow> int \<Rightarrow> error + int array2" where
  "split_by_columns rows cols total_gpus =
     (let local_cols = cols div 4 in
      if 0 < total_gpus \<and> (local_cols < 0 \<or> rows < 0) then Inl ValueError
      else hstack (map (strip_cols rows local_cols total_gpus) [0..<nat total_gpus]))"

text \<open>
  Split by rows:
  \<^verbatim>\<open>
  local_rows = rows // 4
  for i in range(total_gpus):
      ...
      ymin_local = ymin + (ymax - ymin) / total_gpus * i
      ymax_local = ymin_local + (ymax - ymin) / total_gpus
      X, Y = cp.meshgrid(cp.linspace(xmin , xmax, cols), cp.linspace(ymin_local, ymax_local, local_rows))
      mandelbrot_arrays[i] = mandelbrot_kernel(X, Y, 100, 4.0) + i * 10
  array = cp.vstack(mandelbrot_arrays).get()
  \<close>
\<close>

definition strip_rows :: "int \<Rightarrow> int \<Rightarrow> int \<Rightarrow> nat \<Rightarrow> int array2" where
  "strip_rows local_rows cols total_gpus i =
     (let ymin_local = ymin + (ymax - ymin) / of_int total_gpus * real i;
          ymax_local = ymin_local + (ymax - ymin) / of_int total_gpus;
          (X, Y) = meshgrid (linspace xmin xmax (nat cols))
                            (linspace ymin_local ymax_local (nat local_rows))
      in map (map (\<lambda>v. v + int i * 10)) (mandelbrot_kernel X Y 100 4))"

definition split_by_rows :: "int \<Rightarrow> int \<Rightarrow> int \<Rightarrow> error + int array2" where
  "split_by_rows rows cols total_gpus =
     (let local_rows = rows div 4 in
      if 0 < total_gpus \<and> (cols < 0 \<or> local_rows < 0) then Inl ValueError
      else vstack (map (strip_rows local_rows cols total_gpus) [0..<nat total_gpus]))"

text \<open>
  Split by rows and columns:
  \<^verbatim>\<open>
  mandelbrot_arrays = [[None, None], [None, None]]
  for r in range(gpus_y):
      for c in range(gpus_x):
          with Device(r * gpus_y + c):
              ymin_local = ymin + (ymax - ymin) / gpus_y * r
              ymax_local = ymin_local + (ymax - ymin) / gpus_y
              xmin_local = xmin + (xmax - xmin) / gpus_x * c
              xmax_local = xmin_local + (xmax - xmin) / gpus_x
              X, Y = cp.meshgrid(cp.linspace(xmin_local , xmax_local, cols // gpus_x), cp.linspace(ymin_local, ymax_local, rows//gpus_y))
              mandelbrot_arrays[r][c] = mandelbrot_kernel(X, Y, 100, 4.0) + r * 10 + c * 20
  array = cp.vstack([cp.hstack([mandelbrot_arrays[j][i].get() for i in range(gpus_x)]) for j in range(gpus_y)]).get()
  \<close>
  The list of results is two by two: storing the block of a third row or column of
  devices raises \<open>IndexError\<close>.
\<close>

definition block :: "int \<Rightarrow> int \<Rightarrow> int \<Rightarrow> int \<Rightarrow> nat \<Rightarrow> nat \<Rightarrow> int array2" where
  "block rows cols gpus_x gpus_y r c =
     (let ymin_local = ymin + (ymax - ymin) / of_int gpus_y * real r;
          ymax_local = ymin_local + (ymax - ymin) / of_int gpus_y;
          xmin_local = xmin + (xmax - xmin) / of_int gpus_x * real c;
          xmax_local = xmin_local + (xmax - xmin) / of_int gpus_x;
          (X, Y) = meshgrid (linspace xmin_local xmax_local (nat (cols div gpus_x)))
                            (linspace ymin_local ymax_local (nat (rows div gpus_y)))
      in map (map (\<lambda>v. v + int r * 10 + int c * 20)) (mandelbrot_kernel X Y 100 4))"

definition assemble :: "(nat \<Rightarrow> nat \<Rightarrow> 'a array2) \<Rightarrow> nat \<Rightarrow> nat \<Rightarrow> error + 'a array2" where
  "assemble blocks gx gy =
     (case sequence (map (\<lambda>j. hstack (map (\<lambda>i. blocks j i) [0..<gx])) [0..<gy]) of
        Inl e \<Rightarrow> Inl e
      | Inr rs \<Rightarrow> vstack rs)"

definition split_by_rows_and_columns :: "int \<Rightarrow> int \<Rightarrow> int \<Rightarrow> int \<Rightarrow> error + int array2" where
  "split_by_rows_and_columns rows cols gpus_x gpus_y =
     (if 0 < gpus_y \<and> 0 < gpus_x \<and> (cols div gpus_x < 0 \<or> rows div gpus_y < 0) then Inl ValueError
      else if 0 < gpus_y \<and> 0 < gpus_x \<and> (2 < gpus_x \<or> 2 < gpus_y) then Inl IndexError
      else assemble (block rows cols gpus_x gpus_y) (nat gpus_x) (nat gpus_y))"

text \<open>
  Blocks of one size, \<open>lr\<close> rows of \<open>lc\<close> cells each; and the cells of the stacked
  array that \<open>vstack\<close> of \<open>hstack\<close>s fills from the block in row \<open>r\<close> and column \<open>c\<close>
  of such blocks: the worker's region of the global grid.
\<close>

definition uniform :: "nat \<Rightarrow> nat \<Rightarrow> 'a array2 \<Rightarrow> bool" where
  "uniform lr lc b \<longleftrightarrow> length b = lr \<and> list_all (\<lambda>row. length row = lc) b"


section \<open>The impulse scenario\<close>






section \<open>Properties of the stencils\<close>

lemma length_stencil2D: "length (stencil2D nb k x) = length x"
  by (simp add: stencil2D_def)


lemma ncols_stencil2D: "ncols (stencil2D nb k x) = ncols x"
  by (cases x) (simp_all add: ncols_def stencil2D_def upt_conv_Cons del: upt_Suc)

lemma shape_central_diff_stencil2D: "shape (central_diff_stencil2D x Fx Fy) = shape x"
  by (simp add: shape_def central_diff_stencil2D_def length_stencil2D ncols_stencil2D)

lemma central_diff_stencil2D_interior:
  assumes "1 \<le> i" "i + 1 < length x" "1 \<le> j" "j + 1 < ncols x"
  shows "central_diff_stencil2D x Fx Fy ! i ! j =
           x ! i ! j + Fx * (x ! (i - 1) ! j - 2 * x ! i ! j + x ! (i + 1) ! j)
                     + Fy * (x ! i ! (j - 1) - 2 * x ! i ! j + x ! i ! (j + 1))"
proof -
  have i: "nat (int i - 1) = i - 1" "nat (int i + 1) = i + 1" by simp_all
  have j: "nat (int j - 1) = j - 1" "nat (int j + 1) = j + 1" by simp_all
  from assms show ?thesis
    by (simp add: central_diff_stencil2D_def stencil2D_def central_diff_stencil2D_kernel_def i j
             nat_add_distrib)
qed



lemma central_diff_stencil_interior:
  assumes "1 \<le> i" "i + 1 < length x"
  shows "central_diff_stencil x F ! i = x ! i + F * (x ! (i + 1) - 2 * x ! i + x ! (i - 1))"
proof -
  have i: "nat (int i - 1) = i - 1" "nat (int i + 1) = i + 1" by simp_all
  from assms show ?thesis
    by (simp add: central_diff_stencil_def stencil1D_def central_diff_stencil_kernel_def i nat_add_distrib)
qed



subsection \<open>The loops\<close>


lemma simulation2D_loop_Suc:
  "simulation2D_loop (Suc n) x Fx Fy = central_diff_stencil2D (simulation2D_loop n x Fx Fy) Fx Fy"
  by (induction n arbitrary: x) simp_all

lemma shape_simulation2D_loop: "shape (simulation2D_loop n x Fx Fy) = shape x"
  by (induction n arbitrary: x) (simp_all add: shape_central_diff_stencil2D)


lemma ncols_simulation2D: "ncols (simulation2D x Fx Fy nt) = ncols x"
  using shape_simulation2D_loop [of "nat nt" x Fx Fy] by (simp add: shape_def simulation2D_def)

lemma length_simulation2D: "length (simulation2D x Fx Fy nt) = length x"
  using shape_simulation2D_loop [of "nat nt" x Fx Fy] by (simp add: shape_def simulation2D_def)


lemma simulation2D_step:
  "0 \<le> nt \<Longrightarrow> simulation2D x Fx Fy (nt + 1) = central_diff_stencil2D (simulation2D x Fx Fy nt) Fx Fy"
proof -
  assume "0 \<le> nt"
  then have "nat (nt + 1) = Suc (nat nt)" by simp
  then show ?thesis unfolding simulation2D_def by (simp only: simulation2D_loop_Suc)
qed


lemma setup2D_notebook:
  "setup2D notebook_config =
     Inr \<lparr> s_Fx = 4 / 25, s_Fy = 4 / 25, s_temp = initial_temp notebook_config \<rparr>"
  by (simp add: setup2D_def notebook_config_def dx_def dy_def dt_def power2_eq_square)


subsection \<open>The loops on the store\<close>

text \<open>
  A run of \<open>n\<close> iterations appends \<open>n\<close> arrays to the store and changes none that was
  there; the reference it returns points to what the pure loop computes.
\<close>

lemma simulation2D_st_loop_frame:
  "r < length h \<Longrightarrow> simulation2D_st_loop n r Fx Fy h = (r', h') \<Longrightarrow>
     r' < length h' \<and> take (length h) h' = h \<and> length h' = length h + n \<and>
     h' ! r' = simulation2D_loop n (h ! r) Fx Fy"
proof (induction n arbitrary: r h)
  case 0
  then show ?case by simp
next
  case (Suc n)
  let ?h1 = "h @ [central_diff_stencil2D (h ! r) Fx Fy]"
  from Suc.prems have run: "simulation2D_st_loop n (length h) Fx Fy ?h1 = (r', h')"
    by (simp add: central_diff_stencil2D_st_def alloc_def)
  have "length h < length ?h1" by simp
  from Suc.IH [OF this run]
  have IH: "r' < length h'" "take (length ?h1) h' = ?h1" "length h' = length ?h1 + n"
    "h' ! r' = simulation2D_loop n (?h1 ! length h) Fx Fy" by simp_all
  from IH(2) have "take (length h) (take (length ?h1) h') = take (length h) ?h1" by simp
  then have "take (length h) h' = h" by (simp add: min_def)
  with IH show ?case by simp
qed

lemma simulation_st_loop_frame:
  "r < length h \<Longrightarrow> simulation_st_loop n r F h = (r', h') \<Longrightarrow>
     r' < length h' \<and> take (length h) h' = h \<and> length h' = length h + n \<and>
     h' ! r' = simulation_loop n (h ! r) F"
proof (induction n arbitrary: r h)
  case 0
  then show ?case by simp
next
  case (Suc n)
  let ?h1 = "h @ [central_diff_stencil (h ! r) F]"
  from Suc.prems have run: "simulation_st_loop n (length h) F ?h1 = (r', h')"
    by (simp add: central_diff_stencil_st_def alloc_def)
  have "length h < length ?h1" by simp
  from Suc.IH [OF this run]
  have IH: "r' < length h'" "take (length ?h1) h' = ?h1" "length h' = length ?h1 + n"
    "h' ! r' = simulation_loop n (?h1 ! length h) F" by simp_all
  from IH(2) have "take (length h) (take (length ?h1) h') = take (length h) ?h1" by simp
  then have "take (length h) h' = h" by (simp add: min_def)
  with IH show ?case by simp
qed

subsection \<open>The setup cells\<close>

lemma length_linspace: "length (linspace a b n) = n"
  by (simp add: linspace_def)





subsection \<open>Stacking blocks\<close>

lemma length_concat_uniform:
  "(\<And>xs. xs \<in> set xss \<Longrightarrow> length xs = m) \<Longrightarrow> length (concat xss) = length xss * m"
  by (induction xss) simp_all

lemma nth_concat_uniform:
  assumes "\<And>xs. xs \<in> set xss \<Longrightarrow> length xs = m" and "k < length xss * m"
  shows "concat xss ! k = xss ! (k div m) ! (k mod m)"
  using assms
proof (induction xss arbitrary: k)
  case Nil
  then show ?case by simp
next
  case (Cons xs xss)
  have m: "length xs = m" using Cons.prems(1) by simp
  from Cons.prems(2) have "0 < m" by (cases m) simp_all
  show ?case
  proof (cases "k < m")
    case True
    then show ?thesis by (simp add: nth_append m)
  next
    case False
    then have k: "k - m < length xss * m" using Cons.prems(2) by simp
    have "concat xss ! (k - m) = xss ! ((k - m) div m) ! ((k - m) mod m)"
      using Cons.IH [OF _ k] Cons.prems(1) by simp
    moreover have "k div m = Suc ((k - m) div m)" "k mod m = (k - m) mod m"
      using False \<open>0 < m\<close> by (simp_all add: le_div_geq le_mod_geq)
    ultimately show ?thesis using False by (simp add: nth_append m)
  qed
qed

lemma sequence_map_Inr: "sequence (map (\<lambda>j. Inr (f j)) js) = Inr (map f js)"
  by (induction js) simp_all

lemma hstack_uniform:
  assumes "bs \<noteq> []" and "\<And>b. b \<in> set bs \<Longrightarrow> length b = n"
  shows "hstack bs = Inr (map (\<lambda>r. concat (map (\<lambda>b. b ! r) bs)) [0..<n])"
proof -
  have "length (hd bs) = n" using assms by simp
  moreover have "\<not> list_ex (\<lambda>a. length a \<noteq> n) bs"
    using assms(2) by (simp add: list_ex_iff)
  ultimately show ?thesis using assms(1) by (simp add: hstack_def)
qed

lemma vstack_uniform:
  assumes "bs \<noteq> []" and "\<And>b. b \<in> set bs \<Longrightarrow> ncols b = m"
  shows "vstack bs = Inr (concat bs)"
proof -
  have "ncols (hd bs) = m" using assms by simp
  moreover have "\<not> list_ex (\<lambda>a. ncols a \<noteq> m) bs"
    using assms(2) by (simp add: list_ex_iff)
  ultimately show ?thesis using assms(1) by (simp add: vstack_def)
qed


lemma uniform_row: "uniform lr lc b \<Longrightarrow> y < lr \<Longrightarrow> length (b ! y) = lc"
  by (simp add: uniform_def list_all_length)

lemma ncols_uniform: "uniform lr lc b \<Longrightarrow> 0 < lr \<Longrightarrow> ncols b = lc"
  by (cases b) (simp_all add: uniform_def ncols_def)

lemma assemble_uniform:
  assumes "0 < gx" "0 < gy" "0 < lr"
    and u: "\<And>j i. j < gy \<Longrightarrow> i < gx \<Longrightarrow> uniform lr lc (blocks j i)"
  shows "\<exists>A. assemble blocks gx gy = Inr A \<and> uniform (gy * lr) (gx * lc) A \<and>
           (\<forall>y < gy * lr. \<forall>x < gx * lc.
              A ! y ! x = blocks (y div lr) (x div lc) ! (y mod lr) ! (x mod lc))"
proof -
  have cell_len: "length (blocks j i ! y) = lc" if "j < gy" "i < gx" "y < lr" for j i y
    using u [OF that(1,2)] that(3) by (rule uniform_row)
  define band where "band j = map (\<lambda>y. concat (map (\<lambda>i. blocks j i ! y) [0..<gx])) [0..<lr]" for j
  have h: "hstack (map (\<lambda>i. blocks j i) [0..<gx]) = Inr (band j)" if "j < gy" for j
  proof -
    have "map (\<lambda>i. blocks j i) [0..<gx] \<noteq> []" using assms(1) by simp
    moreover have "length b = lr" if "b \<in> set (map (\<lambda>i. blocks j i) [0..<gx])" for b
      using that u [OF \<open>j < gy\<close>] by (auto simp add: uniform_def)
    ultimately have "hstack (map (\<lambda>i. blocks j i) [0..<gx]) =
        Inr (map (\<lambda>r. concat (map (\<lambda>b. b ! r) (map (\<lambda>i. blocks j i) [0..<gx]))) [0..<lr])"
      by (rule hstack_uniform)
    then show ?thesis by (simp add: band_def comp_def)
  qed
  have "map (\<lambda>j. hstack (map (\<lambda>i. blocks j i) [0..<gx])) [0..<gy] = map (\<lambda>j. Inr (band j)) [0..<gy]"
    using h by simp
  then have s: "sequence (map (\<lambda>j. hstack (map (\<lambda>i. blocks j i) [0..<gx])) [0..<gy]) = Inr (map band [0..<gy])"
    by (simp only: sequence_map_Inr)
  have row_len: "length (band j ! y) = gx * lc" if "j < gy" "y < lr" for j y
  proof -
    have "length (concat (map (\<lambda>i. blocks j i ! y) [0..<gx])) = length (map (\<lambda>i. blocks j i ! y) [0..<gx]) * lc"
      using that by (intro length_concat_uniform) (auto simp add: cell_len)
    then show ?thesis using that(2) by (simp add: band_def)
  qed
  have band_len: "length (band j) = lr" for j by (simp add: band_def)
  have band_u: "uniform lr (gx * lc) (band j)" if "j < gy" for j
    using row_len [OF that] by (simp add: uniform_def band_len list_all_length)
  have band_cols: "ncols (band j) = gx * lc" if "j < gy" for j
    using band_u [OF that] assms(3) by (rule ncols_uniform)
  have v: "vstack (map band [0..<gy]) = Inr (concat (map band [0..<gy]))"
    using assms(2) by (intro vstack_uniform [where m = "gx * lc"]) (auto simp add: band_cols)
  define A where "A = concat (map band [0..<gy])"
  have A: "assemble blocks gx gy = Inr A"
    by (simp add: assemble_def s v A_def)
  have lenA: "length A = gy * lr"
  proof -
    have "length (concat (map band [0..<gy])) = length (map band [0..<gy]) * lr"
      by (intro length_concat_uniform) (auto simp add: band_len)
    then show ?thesis by (simp add: A_def)
  qed
  have rowA: "A ! y = band (y div lr) ! (y mod lr)" if "y < gy * lr" for y
  proof -
    have "concat (map band [0..<gy]) ! y = map band [0..<gy] ! (y div lr) ! (y mod lr)"
      using that by (intro nth_concat_uniform) (auto simp add: band_len)
    moreover have "y div lr < gy" using that assms(3)
      by (simp add: less_mult_imp_div_less)
    ultimately show ?thesis by (simp add: A_def)
  qed
  have cell: "A ! y ! x = blocks (y div lr) (x div lc) ! (y mod lr) ! (x mod lc)"
    if "y < gy * lr" "x < gx * lc" for y x
  proof -
    have j: "y div lr < gy" using that(1) assms(3) by (simp add: less_mult_imp_div_less)
    have yy: "y mod lr < lr" using assms(3) by simp
    have "0 < lc" using that(2) by (cases lc) simp_all
    then have i: "x div lc < gx" using that(2) by (simp add: less_mult_imp_div_less)
    have "band (y div lr) ! (y mod lr) = concat (map (\<lambda>i. blocks (y div lr) i ! (y mod lr)) [0..<gx])"
      using yy by (simp add: band_def)
    also have "\<dots> ! x = map (\<lambda>i. blocks (y div lr) i ! (y mod lr)) [0..<gx] ! (x div lc) ! (x mod lc)"
      using that(2) j yy by (intro nth_concat_uniform) (auto simp add: cell_len)
    finally show ?thesis using i rowA [OF that(1)] by simp
  qed
  have "uniform (gy * lr) (gx * lc) A"
  proof -
    have "length (A ! y) = gx * lc" if "y < gy * lr" for y
    proof -
      have "y div lr < gy" using that assms(3) by (simp add: less_mult_imp_div_less)
      then show ?thesis using rowA [OF that] row_len [of "y div lr" "y mod lr"] assms(3) by simp
    qed
    then show ?thesis by (simp add: uniform_def lenA list_all_length)
  qed
  with A cell show ?thesis by blast
qed



lemma zip_replicate_left: "zip (replicate (length ys) a) ys = map (\<lambda>y. (a, y)) ys"
  by (induction ys) simp_all

lemma zip_replicate_right: "zip xs (replicate (length xs) b) = map (\<lambda>x. (x, b)) xs"
  by (induction xs) simp_all

lemma mandelbrot_kernel_meshgrid:
  "mandelbrot_kernel (fst (meshgrid xs ys)) (snd (meshgrid xs ys)) itermax radius2 =
     map (\<lambda>y. map (\<lambda>x. mandelbrot_point x y itermax radius2) xs) ys"
proof -
  have "zip (replicate (length ys) xs) (map (\<lambda>y. replicate (length xs) y) ys) =
          map (\<lambda>y. (xs, replicate (length xs) y)) ys"
    by (induction ys) simp_all
  then show ?thesis
    by (simp add: meshgrid_def mandelbrot_kernel_def zip_replicate_right comp_def)
qed

lemma block_eq:
  "block rows cols gpus_x gpus_y r c =
     map (\<lambda>y. map (\<lambda>x. mandelbrot_point x y 100 4 + int r * 10 + int c * 20)
            (linspace (xmin + (xmax - xmin) / of_int gpus_x * real c)
                      (xmin + (xmax - xmin) / of_int gpus_x * real c + (xmax - xmin) / of_int gpus_x)
                      (nat (cols div gpus_x))))
         (linspace (ymin + (ymax - ymin) / of_int gpus_y * real r)
                   (ymin + (ymax - ymin) / of_int gpus_y * real r + (ymax - ymin) / of_int gpus_y)
                   (nat (rows div gpus_y)))"
  unfolding block_def Let_def case_prod_unfold mandelbrot_kernel_meshgrid by (simp add: comp_def)

lemma strip_cols_eq:
  "strip_cols rows local_cols total_gpus i =
     map (\<lambda>y. map (\<lambda>x. mandelbrot_point x y 100 4 + int i * 10)
            (linspace (xmin + (xmax - xmin) / of_int total_gpus * real i)
                      (xmin + (xmax - xmin) / of_int total_gpus * real i + (xmax - xmin) / of_int total_gpus)
                      (nat local_cols)))
         (linspace ymin ymax (nat rows))"
  unfolding strip_cols_def Let_def case_prod_unfold mandelbrot_kernel_meshgrid by (simp add: comp_def)

lemma mandelbrot_array_eq:
  "mandelbrot_array rows cols =
     map (\<lambda>y. map (\<lambda>x. mandelbrot_point x y 100 4) (linspace xmin xmax cols)) (linspace ymin ymax rows)"
  unfolding mandelbrot_array_def Let_def case_prod_unfold mandelbrot_kernel_meshgrid by simp

lemma uniform_block:
  "uniform (nat (rows div gpus_y)) (nat (cols div gpus_x)) (block rows cols gpus_x gpus_y r c)"
  by (simp add: block_eq uniform_def length_linspace list_all_length)

lemma uniform_strip_cols: "uniform (nat rows) (nat local_cols) (strip_cols rows local_cols total_gpus i)"
  by (simp add: strip_cols_eq uniform_def length_linspace list_all_length)

lemma shape_uniform: "uniform lr lc b \<Longrightarrow> 0 < lr \<Longrightarrow> shape b = (lr, lc)"
  by (simp add: shape_def ncols_uniform) (simp add: uniform_def)






lemma nth_linspace:
  "k < n \<Longrightarrow> linspace a b n ! k = (if n = 1 then a else real k * ((b - a) / real (n - 1)) + a)"
  by (auto simp add: linspace_def)

lemma hstack_singleton: "hstack [b] = Inr b"
  by (simp add: hstack_def map_nth)

lemma vstack_singleton: "vstack [b] = Inr b"
  by (simp add: vstack_def)

lemma assemble_one_row: "assemble (\<lambda>j i. f i) gx 1 = hstack (map f [0..<gx])"
  by (cases "hstack (map f [0..<gx])") (simp_all add: assemble_def vstack_singleton)

lemma split_by_rows_and_columns_cells:
  assumes "gpus_x = 1 \<or> gpus_x = 2" "gpus_y = 1 \<or> gpus_y = 2" "gpus_y \<le> rows" "0 \<le> cols"
    and "lr = nat (rows div gpus_y)" "lc = nat (cols div gpus_x)"
  shows "\<exists>A. split_by_rows_and_columns rows cols gpus_x gpus_y = Inr A \<and>
           uniform (nat gpus_y * lr) (nat gpus_x * lc) A \<and>
           (\<forall>y < nat gpus_y * lr. \<forall>x < nat gpus_x * lc.
              A ! y ! x = block rows cols gpus_x gpus_y (y div lr) (x div lc) ! (y mod lr) ! (x mod lc))"
proof -
  have pos: "0 < gpus_x" "0 < gpus_y" using assms(1,2) by auto
  have "0 < rows div gpus_y" using assms(3) pos(2) by (simp add: pos_imp_zdiv_pos_iff)
  then have lr: "0 < lr" using assms(5) by simp
  have "0 \<le> cols div gpus_x" using assms(4) pos(1) by (simp add: pos_imp_zdiv_nonneg_iff)
  with \<open>0 < rows div gpus_y\<close>
  have "split_by_rows_and_columns rows cols gpus_x gpus_y =
          assemble (block rows cols gpus_x gpus_y) (nat gpus_x) (nat gpus_y)"
    using assms(1,2) by (auto simp add: split_by_rows_and_columns_def)
  moreover have "\<exists>A. assemble (block rows cols gpus_x gpus_y) (nat gpus_x) (nat gpus_y) = Inr A \<and>
           uniform (nat gpus_y * lr) (nat gpus_x * lc) A \<and>
           (\<forall>y < nat gpus_y * lr. \<forall>x < nat gpus_x * lc.
              A ! y ! x = block rows cols gpus_x gpus_y (y div lr) (x div lc) ! (y mod lr) ! (x mod lc))"
    using pos lr by (intro assemble_uniform) (simp_all add: assms(5,6) uniform_block)
  ultimately show ?thesis by simp
qed

lemma split_by_columns_cells:
  assumes "0 < rows" "0 \<le> cols" "lc = nat (cols div 4)"
  shows "\<exists>A. split_by_columns rows cols 4 = Inr A \<and>
           uniform (nat rows) (4 * lc) A \<and>
           (\<forall>y < nat rows. \<forall>x < 4 * lc.
              A ! y ! x = strip_cols rows (cols div 4) 4 (x div lc) ! y ! (x mod lc))"
proof -
  have "0 \<le> cols div 4" using assms(2) by simp
  then have "split_by_columns rows cols 4 = hstack (map (strip_cols rows (cols div 4) 4) [0..<4])"
    using assms(1) by (simp add: split_by_columns_def Let_def del: upt_Suc)
  then have s: "split_by_columns rows cols 4 = assemble (\<lambda>j i. strip_cols rows (cols div 4) 4 i) 4 1"
    by (simp only: assemble_one_row)
  have "\<exists>A. assemble (\<lambda>j i. strip_cols rows (cols div 4) 4 i) 4 1 = Inr A \<and>
           uniform (1 * nat rows) (4 * lc) A \<and>
           (\<forall>y < 1 * nat rows. \<forall>x < 4 * lc.
              A ! y ! x = strip_cols rows (cols div 4) 4 (x div lc) ! (y mod nat rows) ! (x mod lc))"
    using assms(1) by (intro assemble_uniform) (simp_all add: assms(3) uniform_strip_cols)
  then show ?thesis unfolding s by auto
qed

lemma split_by_columns_shape:
  assumes "0 < rows" "0 \<le> cols"
  shows "map_sum id shape (split_by_columns rows cols 4) = Inr (nat rows, 4 * nat (cols div 4))"
proof -
  obtain A where "split_by_columns rows cols 4 = Inr A" "uniform (nat rows) (4 * nat (cols div 4)) A"
    using split_by_columns_cells [OF assms refl] by blast
  then show ?thesis using assms(1) by (simp add: shape_uniform)
qed

lemma split_by_rows_and_columns_shape:
  assumes "gpus_x = 1 \<or> gpus_x = 2" "gpus_y = 1 \<or> gpus_y = 2" "gpus_y \<le> rows" "0 \<le> cols"
  shows "map_sum id shape (split_by_rows_and_columns rows cols gpus_x gpus_y) =
           Inr (nat gpus_y * nat (rows div gpus_y), nat gpus_x * nat (cols div gpus_x))"
proof -
  obtain A where A: "split_by_rows_and_columns rows cols gpus_x gpus_y = Inr A"
    "uniform (nat gpus_y * nat (rows div gpus_y)) (nat gpus_x * nat (cols div gpus_x)) A"
    using split_by_rows_and_columns_cells [OF assms refl refl] by blast
  have "0 < gpus_y" using assms(2) by auto
  then have "0 < rows div gpus_y" using assms(3) by (simp add: pos_imp_zdiv_pos_iff)
  then have "0 < nat gpus_y * nat (rows div gpus_y)" using \<open>0 < gpus_y\<close> by simp
  with A show ?thesis by (simp add: shape_uniform)
qed

lemma mandelbrot_point_corner: "mandelbrot_point 1 (- 1) 100 4 = 1"
  by (simp add: mandelbrot_point_def)

lemma nth_strip_cols:
  assumes "y < nat rows" "x < nat local_cols"
  shows "strip_cols rows local_cols total_gpus i ! y ! x =
           mandelbrot_point
             (linspace (xmin + (xmax - xmin) / of_int total_gpus * real i)
                       (xmin + (xmax - xmin) / of_int total_gpus * real i + (xmax - xmin) / of_int total_gpus)
                       (nat local_cols) ! x)
             (linspace ymin ymax (nat rows) ! y) 100 4 + int i * 10"
  using assms by (simp add: strip_cols_eq length_linspace)

lemma nth_mandelbrot_array:
  assumes "y < rows" "x < cols"
  shows "mandelbrot_array rows cols ! y ! x =
           mandelbrot_point (linspace xmin xmax cols ! x) (linspace ymin ymax rows ! y) 100 4"
  using assms by (simp add: mandelbrot_array_eq length_linspace)

lemma uniform_mandelbrot_array: "uniform rows cols (mandelbrot_array rows cols)"
  by (simp add: mandelbrot_array_eq uniform_def length_linspace list_all_length)

subsection \<open>The impulse scenario\<close>













section \<open>The claims\<close>

text \<open>
  C1. When the 2D setup cell succeeds, the \<open>Fx\<close> and \<open>Fy\<close> it binds are
  \<open>alpha * dt / dx\<^sup>2\<close> and \<open>alpha * dt / dy\<^sup>2\<close>, and with these two values, passed
  unchanged to every iteration, the field after \<open>k + 1\<close> iterations of \<open>simulation2D\<close>
  is at every interior cell \<open>(i, j)\<close> the five-point formula on the field after \<open>k\<close>
  iterations.
\<close>

theorem five_point_update:
  assumes "setup2D c = Inr s"
    and "0 \<le> k"
    and "cur = simulation2D x (s_Fx s) (s_Fy s) k"
    and "nxt = simulation2D x (s_Fx s) (s_Fy s) (k + 1)"
    and "1 \<le> i" "i + 1 < length x" "1 \<le> j" "j + 1 < ncols x"
  shows "s_Fx s = c_alpha c * dt c / (dx c)\<^sup>2 \<and> s_Fy s = c_alpha c * dt c / (dy c)\<^sup>2 \<and>
         nxt ! i ! j =
           cur ! i ! j + s_Fx s * (cur ! (i - 1) ! j - 2 * cur ! i ! j + cur ! (i + 1) ! j)
                       + s_Fy s * (cur ! i ! (j - 1) - 2 * cur ! i ! j + cur ! i ! (j + 1))"
proof -
  from assms(1) have "s = \<lparr> s_Fx = c_alpha c * dt c / (dx c)\<^sup>2,
                            s_Fy = c_alpha c * dt c / (dy c)\<^sup>2, s_temp = initial_temp c \<rparr>"
    by (auto simp add: setup2D_def split: if_splits)
  then have F: "s_Fx s = c_alpha c * dt c / (dx c)\<^sup>2" "s_Fy s = c_alpha c * dt c / (dy c)\<^sup>2"
    by simp_all
  have "nxt = central_diff_stencil2D cur (s_Fx s) (s_Fy s)"
    using assms(2-4) by (simp add: simulation2D_step)
  moreover have "i + 1 < length cur" "j + 1 < ncols cur"
    using assms by (simp_all add: length_simulation2D ncols_simulation2D)
  ultimately have "nxt ! i ! j =
           cur ! i ! j + s_Fx s * (cur ! (i - 1) ! j - 2 * cur ! i ! j + cur ! (i + 1) ! j)
                       + s_Fy s * (cur ! i ! (j - 1) - 2 * cur ! i ! j + cur ! i ! (j + 1))"
    using assms(5,7) by (simp add: central_diff_stencil2D_interior)
  with F show ?thesis by simp
qed

theorem five_point_update_witness:
  "simulation2D [[0, 0, 0], [3, 1, 5], [0, 0, 0]] (4 / 25) (4 / 25) 1 ! 1 ! 1 =
     (1 + 4 / 25 * (0 - 2 * 1 + 0) + 4 / 25 * (3 - 2 * 1 + 5) :: real)"
  using five_point_update [OF setup2D_notebook, of 0 _ "[[0, 0, 0], [3, 1, 5], [0, 0, 0]]" _ 1 1]
  by (simp add: simulation2D_def ncols_def)

text \<open>
  C6. With an iteration budget of zero both loops return their argument as it is, and on
  the store they return the reference they were given and leave the store as it is: no
  stencil call is made and no array is allocated.
\<close>

theorem zero_iterations_identity:
  "simulation2D x Fx Fy 0 = x \<and> simulation u F 0 = u \<and>
   simulation2D_st r Fx Fy 0 h = (r, h) \<and> simulation_st r' F 0 g = (r', g)"
  by (simp add: simulation2D_def simulation_def simulation2D_st_def simulation_st_def)



text \<open>
  C10. On the store, a call of \<open>simulation2D\<close> or \<open>simulation\<close> leaves the array its
  argument refers to, and every other array the caller had, exactly as it was: the store
  after the call starts with the store before it. The result is a reference to the
  field the pure loop computes; each iteration has written into an array of its own.
\<close>

theorem input_not_mutated:
  assumes "r < length h" and "simulation2D_st r Fx Fy nt h = (r', h')"
    and "q < length g" and "simulation_st q F nt g = (q', g')"
  shows "h' ! r = h ! r \<and> take (length h) h' = h \<and> h' ! r' = simulation2D (h ! r) Fx Fy nt \<and>
         g' ! q = g ! q \<and> take (length g) g' = g \<and> g' ! q' = simulation (g ! q) F nt"
proof -
  from simulation2D_st_loop_frame [OF assms(1), of "nat nt" Fx Fy r' h'] assms(2)
  have a: "take (length h) h' = h" "h' ! r' = simulation2D (h ! r) Fx Fy nt"
    by (simp_all add: simulation2D_st_def simulation2D_def)
  from simulation_st_loop_frame [OF assms(3), of "nat nt" F q' g'] assms(4)
  have b: "take (length g) g' = g" "g' ! q' = simulation (g ! q) F nt"
    by (simp_all add: simulation_st_def simulation_def)
  have "h' ! r = take (length h) h' ! r" using assms(1) by simp
  moreover have "g' ! q = take (length g) g' ! q" using assms(3) by simp
  ultimately show ?thesis using a b by simp
qed

theorem input_not_mutated_witness:
  "snd (simulation2D_st 0 (1 / 10) (1 / 10) 2 [[[1, 2, 3], [4, 5, 6], [7, 8, 9 :: real]]]) ! 0 =
     [[1, 2, 3], [4, 5, 6], [7, 8, 9]] \<and>
   snd (simulation_st 0 (1 / 10) 2 [[1, 2, 3 :: real]]) ! 0 = [1, 2, 3]"
  using input_not_mutated [of 0 "[[[1, 2, 3], [4, 5, 6], [7, 8, 9 :: real]]]" "1 / 10" "1 / 10" 2
      "fst (simulation2D_st 0 (1 / 10) (1 / 10) 2 [[[1, 2, 3], [4, 5, 6], [7, 8, 9 :: real]]])"
      "snd (simulation2D_st 0 (1 / 10) (1 / 10) 2 [[[1, 2, 3], [4, 5, 6], [7, 8, 9 :: real]]])"
      0 "[[1, 2, 3 :: real]]" "1 / 10"
      "fst (simulation_st 0 (1 / 10) 2 [[1, 2, 3 :: real]])"
      "snd (simulation_st 0 (1 / 10) 2 [[1, 2, 3 :: real]])"]
  by simp







text \<open>
  C5 (as stated, it fails). 4 does not divide 5002 columns, and 2 divides neither 5001
  rows nor 5001 columns: the split by columns and the split by rows and columns raise
  nothing and return a field of 5000 by 5000 cells.
\<close>

theorem uneven_split_counterexample:
  "\<not> (4 :: int) dvd 5002 \<and>
   map_sum id shape (split_by_columns 5000 5002 4) = Inr (5000, 5000) \<and>
   \<not> (2 :: int) dvd 5001 \<and>
   map_sum id shape (split_by_rows_and_columns 5001 5001 2 2) = Inr (5000, 5000)"
proof -
  have "map_sum id shape (split_by_columns 5000 5002 4) = Inr (5000, 5000)"
    using split_by_columns_shape [of 5000 5002] by simp
  moreover have "map_sum id shape (split_by_rows_and_columns 5001 5001 2 2) = Inr (5000, 5000)"
    using split_by_rows_and_columns_shape [of 2 2 5001 5001] by simp
  ultimately show ?thesis by simp
qed

text \<open>
  C5 (amended). The split by columns makes no divisibility check and raises nothing:
  for a grid of at least 4 columns each of the 4 devices gets a strip of
  \<open>cols // 4\<close> columns, all strips of one shape and none padded, and the stacked field
  has \<open>4 * (cols // 4)\<close> columns, fewer than \<open>cols\<close> when 4 does not divide \<open>cols\<close>.
\<close>

theorem uneven_split_truncates:
  assumes "0 < rows" "4 \<le> cols" "lc = nat (cols div 4)"
  shows "\<exists>A. split_by_columns rows cols 4 = Inr A \<and>
           shape A = (nat rows, 4 * lc) \<and>
           (\<forall>i < 4. shape (strip_cols rows (cols div 4) 4 i) = (nat rows, lc)) \<and>
           (\<not> 4 dvd cols \<longrightarrow> 4 * lc < nat cols)"
proof -
  obtain A where A: "split_by_columns rows cols 4 = Inr A" "uniform (nat rows) (4 * lc) A"
    using split_by_columns_cells [OF assms(1) _ assms(3)] assms(2) by fastforce
  have "shape A = (nat rows, 4 * lc)"
    using A(2) assms(1) by (simp add: shape_uniform)
  moreover have "shape (strip_cols rows (cols div 4) 4 i) = (nat rows, lc)" for i
    using uniform_strip_cols [of rows "cols div 4" 4 i] assms(1,3) by (simp add: shape_uniform)
  moreover have "4 * lc < nat cols" if "\<not> 4 dvd cols"
  proof -
    have "cols mod 4 \<noteq> 0" using that by (simp add: dvd_eq_mod_eq_0)
    moreover have "0 \<le> cols mod 4" by simp
    moreover have "cols = 4 * (cols div 4) + cols mod 4" by simp
    ultimately have "4 * (cols div 4) < cols" by linarith
    then show ?thesis using assms(2,3) by simp
  qed
  ultimately show ?thesis using A(1) by simp
qed

theorem uneven_split_truncates_witness:
  "map_sum id shape (split_by_columns 3 10 4) = Inr (3, 8)"
proof -
  obtain A where "split_by_columns 3 10 4 = Inr A" "shape A = (nat 3, 4 * 2)"
    using uneven_split_truncates [of 3 10 2] by auto
  then show ?thesis by simp
qed

text \<open>
  C3 (as stated, it fails). With the notebook's window, 5000 by 5000 samples and 100
  iterations, the last cell of the first row is the point \<open>1 - i\<close> for one device and
  for four: the single-device field holds its escape count 1 there, the field of the
  split by columns holds 31, the count plus the offset \<open>3 * 10\<close> of the fourth device.
\<close>

theorem decomposition_counterexample:
  "mandelbrot_array 5000 5000 ! 0 ! 4999 = 1 \<and>
   map_sum id (\<lambda>A. A ! 0 ! 4999) (split_by_columns 5000 5000 4) = Inr 31"
proof -
  have y0: "linspace ymin ymax 5000 ! 0 = - 1"
    by (simp add: nth_linspace ymin_def)
  have "linspace xmin xmax 5000 ! 4999 = 1"
    by (simp add: nth_linspace xmin_def xmax_def)
  then have single: "mandelbrot_array 5000 5000 ! 0 ! 4999 = 1"
    by (simp add: nth_mandelbrot_array y0 mandelbrot_point_corner)
  obtain A where A: "split_by_columns 5000 5000 4 = Inr A"
    "\<And>y x. y < nat 5000 \<Longrightarrow> x < 4 * 1250 \<Longrightarrow>
       A ! y ! x = strip_cols 5000 (5000 div 4) 4 (x div 1250) ! y ! (x mod 1250)"
    using split_by_columns_cells [of 5000 5000 1250] by auto
  have "A ! 0 ! 4999 = strip_cols 5000 (5000 div 4) 4 (4999 div 1250) ! 0 ! (4999 mod 1250)"
    by (rule A(2)) simp_all
  also have "\<dots> = strip_cols 5000 1250 4 3 ! 0 ! 1249" by simp
  also have "\<dots> = mandelbrot_point 1 (- 1) 100 4 + 30"
    by (simp add: nth_strip_cols nth_linspace xmin_def xmax_def ymin_def ymax_def)
  finally have "A ! 0 ! 4999 = 31" by (simp add: mandelbrot_point_corner)
  with single A(1) show ?thesis by simp
qed

text \<open>
  C3 (amended). For the same window, sample counts and iteration limit, the split by
  columns over four devices returns a field of the shape of the single-device field
  (when 4 divides \<open>cols\<close>) whose values are not the single-device ones: the cell in
  column \<open>x\<close> of the strip of device \<open>i\<close> holds the kernel's value at the \<open>x\<close>-th of
  the strip's own \<open>cols // 4\<close> samples, plus the offset \<open>10 * i\<close>, where the
  single-device field holds the kernel's value at the \<open>x\<close>-th of \<open>cols\<close> samples of
  the whole window. The two fields agree in column 0.
\<close>

theorem column_split_values:
  assumes "0 < rows" "4 \<le> cols" "lc = nat (cols div 4)" "y < nat rows"
  shows "\<exists>A. split_by_columns rows cols 4 = Inr A \<and>
           (4 dvd cols \<longrightarrow> shape A = shape (mandelbrot_array (nat rows) (nat cols))) \<and>
           (\<forall>i < 4. \<forall>x < lc.
              A ! y ! (i * lc + x) =
                mandelbrot_point
                  (linspace (xmin + (xmax - xmin) / 4 * real i)
                            (xmin + (xmax - xmin) / 4 * real i + (xmax - xmin) / 4) lc ! x)
                  (linspace ymin ymax (nat rows) ! y) 100 4 + int i * 10) \<and>
           (\<forall>x < nat cols.
              mandelbrot_array (nat rows) (nat cols) ! y ! x =
                mandelbrot_point (linspace xmin xmax (nat cols) ! x)
                                 (linspace ymin ymax (nat rows) ! y) 100 4) \<and>
           A ! y ! 0 = mandelbrot_array (nat rows) (nat cols) ! y ! 0"
proof -
  have c0: "0 \<le> cols" using assms(2) by simp
  obtain A where A: "split_by_columns rows cols 4 = Inr A" "uniform (nat rows) (4 * lc) A"
    "\<And>y x. y < nat rows \<Longrightarrow> x < 4 * lc \<Longrightarrow>
       A ! y ! x = strip_cols rows (cols div 4) 4 (x div lc) ! y ! (x mod lc)"
    using split_by_columns_cells [OF assms(1) c0 assms(3)] by blast
  have "1 \<le> cols div 4" using assms(2) by simp
  then have lc: "0 < lc" using assms(3) by simp
  have r: "0 < nat rows" using assms(1) by simp
  have sh: "shape A = shape (mandelbrot_array (nat rows) (nat cols))" if "4 dvd cols"
  proof -
    from that have "4 * (cols div 4) = cols" by simp
    then have "nat (4 * (cols div 4)) = nat cols" by simp
    then have "4 * lc = nat cols" by (simp add: assms(3) nat_mult_distrib)
    then show ?thesis
      using shape_uniform [OF A(2) r] shape_uniform [OF uniform_mandelbrot_array r, of "nat cols"]
      by simp
  qed
  have cell: "A ! y ! (i * lc + x) =
                mandelbrot_point
                  (linspace (xmin + (xmax - xmin) / 4 * real i)
                            (xmin + (xmax - xmin) / 4 * real i + (xmax - xmin) / 4) lc ! x)
                  (linspace ymin ymax (nat rows) ! y) 100 4 + int i * 10"
    if "i < 4" "x < lc" for i x
  proof -
    have "Suc i \<le> 4" using that(1) by simp
    then have le: "Suc i * lc \<le> 4 * lc" by (rule mult_le_mono1)
    have "i * lc + x < i * lc + lc" using that(2) by simp
    also have "\<dots> = Suc i * lc" by simp
    finally have "i * lc + x < 4 * lc" using le by (rule less_le_trans)
    from A(3) [OF assms(4) this]
    have "A ! y ! (i * lc + x) = strip_cols rows (cols div 4) 4 i ! y ! x"
      using that(2) by simp
    also have "\<dots> = mandelbrot_point
                  (linspace (xmin + (xmax - xmin) / 4 * real i)
                            (xmin + (xmax - xmin) / 4 * real i + (xmax - xmin) / 4) lc ! x)
                  (linspace ymin ymax (nat rows) ! y) 100 4 + int i * 10"
      using nth_strip_cols [of y rows x "cols div 4" 4 i] assms(3,4) that(2) by simp
    finally show ?thesis .
  qed
  have single: "mandelbrot_array (nat rows) (nat cols) ! y ! x =
                mandelbrot_point (linspace xmin xmax (nat cols) ! x)
                                 (linspace ymin ymax (nat rows) ! y) 100 4"
    if "x < nat cols" for x
    using assms(4) that by (rule nth_mandelbrot_array)
  have "A ! y ! 0 = mandelbrot_point xmin (linspace ymin ymax (nat rows) ! y) 100 4"
    using cell [of 0 0] lc by (simp add: nth_linspace)
  moreover have "mandelbrot_array (nat rows) (nat cols) ! y ! 0 =
      mandelbrot_point xmin (linspace ymin ymax (nat rows) ! y) 100 4"
    using single [of 0] assms(2) by (simp add: nth_linspace)
  ultimately have col0: "A ! y ! 0 = mandelbrot_array (nat rows) (nat cols) ! y ! 0" by simp
  from A(1) sh cell single col0 show ?thesis by blast
qed

theorem column_split_values_witness:
  "map_sum id (\<lambda>A. A ! 0 ! 0) (split_by_columns 5000 5000 4) =
     Inr (mandelbrot_array 5000 5000 ! 0 ! 0)"
proof -
  have p1: "(0::int) < 5000" by simp
  have p2: "(4::int) \<le> 5000" by simp
  have p4: "(0::nat) < nat 5000" by simp
  from column_split_values [OF p1 p2 refl p4]
  obtain A where "split_by_columns 5000 5000 4 = Inr A"
    "A ! 0 ! 0 = mandelbrot_array (nat 5000) (nat 5000) ! 0 ! 0"
    by (elim exE conjE) (rule that, assumption+)
  then show ?thesis by simp
qed




end
